theory Spec2Isabelle
  imports Main "HOL-Library.Word"
begin

unbundle bit_operations_syntax

section \<open>The board: one digital pin, a clock and a busy-wait\<close>

text \<open>
  \<open>MD_OnePin\<close> talks to the wire through five calls of the Arduino core:
  \<open>pinMode\<close>, \<open>digitalWrite\<close>, \<open>digitalRead\<close>, \<open>delayMicroseconds\<close> and
  \<open>micros\<close>, all of them on the one pin \<open>_pin\<close>. The board is modelled as that pin
  (a direction and an output latch), the list of the calls made so far, and two
  oracles for what the outside world answers: the level the wire shows at the
  n-th \<open>digitalRead\<close> and the value of the n-th \<open>micros()\<close>.

  Integer widths are those of the 8-bit AVR core the library is written for:
  \<open>uint8_t\<close>, \<open>uint16_t\<close> and \<open>uint32_t\<close> are words of that width, and the
  \<open>unsigned int\<close> argument of \<open>delayMicroseconds\<close> has 16 bits, so a difference
  of two \<open>uint16_t\<close> is computed modulo \<open>2 ^ 16\<close>.
\<close>

type_synonym u8 = "8 word"
type_synonym u16 = "16 word"
type_synonym u32 = "32 word"

datatype level = LOW | HIGH

datatype pin_mode = INPUT | OUTPUT | INPUT_PULLUP

datatype event =
    PinMode pin_mode
  | DigitalWrite level
  | DigitalRead level
  | DelayMicroseconds u16
  | Micros u32

text \<open>
  The object's members (\<open>MD_OnePin.h\<close>, private section) and the board it runs on,
  in one record: explicit state passing.
\<close>

record state =
  pin :: u8
  presence :: bool
  bppPri :: u8
  bppSec :: u8
  switchTime :: u16
  writeTime :: u16
  mode :: pin_mode
  latch :: level
  line :: "nat \<Rightarrow> level"
  reads :: nat
  clock :: "nat \<Rightarrow> u32"
  ticks :: nat
  trace :: "event list"

text \<open>
  \<open>pinMode\<close> sets the direction. As in the AVR core, \<open>INPUT_PULLUP\<close> also sets the
  pin's output latch (that is what switches the pull-up on), \<open>INPUT\<close> clears it, and
  \<open>OUTPUT\<close> leaves it: a pin switched to output drives what the latch holds.
  \<open>digitalWrite\<close> sets the latch. \<open>digitalRead\<close> and \<open>micros\<close> ask the oracles.
\<close>

definition pinMode :: "pin_mode \<Rightarrow> state \<Rightarrow> state" where
  "pinMode m s =
     s\<lparr>mode := m,
       latch := (case m of INPUT \<Rightarrow> LOW | INPUT_PULLUP \<Rightarrow> HIGH | OUTPUT \<Rightarrow> latch s),
       trace := trace s @ [PinMode m]\<rparr>"

definition digitalWrite :: "level \<Rightarrow> state \<Rightarrow> state" where
  "digitalWrite v s = s\<lparr>latch := v, trace := trace s @ [DigitalWrite v]\<rparr>"

definition digitalRead :: "state \<Rightarrow> level \<times> state" where
  "digitalRead s =
     (line s (reads s),
      s\<lparr>reads := Suc (reads s), trace := trace s @ [DigitalRead (line s (reads s))]\<rparr>)"

definition delayMicroseconds :: "u16 \<Rightarrow> state \<Rightarrow> state" where
  "delayMicroseconds us s = s\<lparr>trace := trace s @ [DelayMicroseconds us]\<rparr>"

definition micros :: "state \<Rightarrow> u32 \<times> state" where
  "micros s =
     (clock s (ticks s),
      s\<lparr>ticks := Suc (ticks s), trace := trace s @ [Micros (clock s (ticks s))]\<rparr>)"

section \<open>Timing constants (\<open>MD_OnePin_Protocol.h\<close>)\<close>

definition OPT :: u16 where "OPT = 80"

definition OPT_RST_SIGNAL :: u16 where "OPT_RST_SIGNAL = 5 * OPT"
definition OPT_RST_PRESENCE :: u16 where "OPT_RST_PRESENCE = (3 * OPT) div 2"
definition OPT_RST_PRS_SAMPLE :: u16 where "OPT_RST_PRS_SAMPLE = OPT"
definition OPT_RST_END :: u16 where "OPT_RST_END = (3 * OPT) div 2"

definition OPT_WR1_SIGNAL :: u16 where "OPT_WR1_SIGNAL = OPT div 2"
definition OPT_WR1_PAUSE :: u16 where "OPT_WR1_PAUSE = OPT - OPT_WR1_SIGNAL"

definition OPT_WR0_SIGNAL :: u16 where "OPT_WR0_SIGNAL = (3 * OPT) div 2"
definition OPT_WR0_PAUSE :: u16 where "OPT_WR0_PAUSE = (2 * OPT) - OPT_WR0_SIGNAL"

definition OPT_RD_INIT :: u16 where "OPT_RD_INIT = (5 * OPT) div 2"
definition OPT_RD0_SIGNAL :: u16 where "OPT_RD0_SIGNAL = OPT"
definition OPT_RD_SAMPLE :: u16 where "OPT_RD_SAMPLE = OPT_RD0_SIGNAL div 2"
definition OPT_RD_PAUSE :: u16 where "OPT_RD_PAUSE = OPT"

section \<open>The macros of \<open>MD_OnePin.cpp\<close>\<close>

definition SET_TO_INPUT :: "state \<Rightarrow> state" where
  "SET_TO_INPUT s = pinMode INPUT_PULLUP s"

definition SET_TO_OUTPUT :: "state \<Rightarrow> state" where
  "SET_TO_OUTPUT s = pinMode OUTPUT s"

definition OP_SIGNAL :: "u16 \<Rightarrow> u16 \<Rightarrow> state \<Rightarrow> state" where
  "OP_SIGNAL active pause s =
     (let s1 = digitalWrite LOW s;
          s2 = delayMicroseconds (active - writeTime s1) s1;
          s3 = digitalWrite HIGH s2
      in if pause \<noteq> 0 then delayMicroseconds (pause - writeTime s3) s3 else s3)"

section \<open>The class \<open>MD_OnePin\<close>\<close>

text \<open>
  The constructor's initialiser list sets \<open>_pin\<close>, \<open>_presence\<close>, \<open>_bppPri\<close> and
  \<open>_bppSec\<close>; its body is empty. \<open>_switchTime\<close> and \<open>_writeTime\<close> keep what the
  object's storage held, so the constructor is an update of the state it is run in.
\<close>

definition MD_OnePin :: "u8 \<Rightarrow> u8 \<Rightarrow> u8 \<Rightarrow> state \<Rightarrow> state" where
  "MD_OnePin p bpp_pri bpp_sec s =
     s\<lparr>pin := p, presence := False, bppPri := bpp_pri, bppSec := bpp_sec\<rparr>"

definition isPresent :: "state \<Rightarrow> bool" where
  "isPresent s = presence s"

definition resetComm :: "state \<Rightarrow> bool \<times> state" where
  "resetComm s =
     (let s1 = SET_TO_OUTPUT s;
          s2 = OP_SIGNAL OPT_RST_SIGNAL 0 s1;
          s3 = SET_TO_INPUT s2;
          s4 = delayMicroseconds (OPT_RST_PRS_SAMPLE - switchTime s3) s3;
          (v, s5) = digitalRead s4;
          s6 = s5\<lparr>presence := (v = LOW)\<rparr>;
          s7 = SET_TO_OUTPUT s6;
          s8 = delayMicroseconds (OPT_RST_END - switchTime s7) s7
      in (presence s8, s8))"

text \<open>
  The loop counters are \<open>uint8_t\<close>; below the bound, incrementing one does not wrap.
\<close>

lemma u8_succ: "(i :: u8) < n \<Longrightarrow> unat (i + 1) = Suc (unat i)"
proof -
  assume "i < n"
  then have "unat i < unat n" by (simp add: word_less_nat_alt)
  moreover have "unat n < 256" using unsigned_less [of n, where ?'a = nat] by simp
  ultimately show ?thesis by (simp add: unat_word_ariths)
qed

text \<open>
  The loop of \<open>write\<close>: \<open>for (uint8_t i = 0; i < _bppPri; i++, data >>= 1)\<close>.
\<close>

function write_loop :: "u8 \<Rightarrow> u32 \<Rightarrow> state \<Rightarrow> state" where
  "write_loop i data s =
     (if i < bppPri s
      then write_loop (i + 1) (drop_bit 1 data)
             (if data AND 1 \<noteq> 0 then OP_SIGNAL OPT_WR1_SIGNAL OPT_WR1_PAUSE s
              else OP_SIGNAL OPT_WR0_SIGNAL OPT_WR0_PAUSE s)
      else s)"
  by pat_completeness auto
termination
  by (relation "measure (\<lambda>(i, data, s). unat (bppPri s) - unat i)")
     (auto simp: OP_SIGNAL_def digitalWrite_def delayMicroseconds_def Let_def u8_succ
        word_less_nat_alt)

text \<open>
  \<open>write\<close> and \<open>begin\<close> are reserved words of the prover: the two methods are
  \<open>write'\<close> and \<open>begin'\<close> here.
\<close>

definition write' :: "u32 \<Rightarrow> bool \<Rightarrow> state \<Rightarrow> bool \<times> state" where
  "write' data noReset s =
     (let s1 = (if \<not> noReset then snd (resetComm s) else s);
          s2 = (if noReset \<or> presence s1 then write_loop 0 data s1 else s1)
      in (presence s2, s2))"

text \<open>
  One pass of the body of the loop of \<open>read\<close>: the sampled level and the state after it.
\<close>

definition read_slot_body :: "state \<Rightarrow> level \<times> state" where
  "read_slot_body s =
     (let s1 = OP_SIGNAL OPT_RD_INIT 0 s;
          s2 = SET_TO_INPUT s1;
          s3 = delayMicroseconds (OPT_RD_SAMPLE - switchTime s2) s2;
          (v, s4) = digitalRead s3;
          s5 = SET_TO_OUTPUT s4;
          s6 = delayMicroseconds (OPT_RD_PAUSE - switchTime s5) s5
      in (v, s6))"

text \<open>
  The loop of \<open>read\<close>: \<open>for (uint8_t i = 0; i < _bppSec; i++, mask <<= 1)\<close>, with
  \<open>if (digitalRead(_pin) == HIGH) packet |= mask\<close> (\<open>msk\<close> here) between the sample and the switch
  back to output.
\<close>

function read_loop :: "u8 \<Rightarrow> u32 \<Rightarrow> u32 \<Rightarrow> state \<Rightarrow> u32 \<times> state" where
  "read_loop i msk packet s =
     (if i < bppSec s
      then (let (v, s') = read_slot_body s
            in read_loop (i + 1) (push_bit 1 msk)
                 (if v = HIGH then packet OR msk else packet) s')
      else (packet, s))"
  by pat_completeness auto
termination
  by (relation "measure (\<lambda>(i, msk, packet, s). unat (bppSec s) - unat i)")
     (auto simp: read_slot_body_def OP_SIGNAL_def SET_TO_INPUT_def SET_TO_OUTPUT_def
        pinMode_def digitalWrite_def digitalRead_def delayMicroseconds_def Let_def u8_succ
        word_less_nat_alt)

definition read :: "bool \<Rightarrow> state \<Rightarrow> u32 \<times> state" where
  "read noReset s =
     (let packet = 0; msk = 1;
          s1 = (if \<not> noReset then snd (resetComm s) else s)
      in if \<not> noReset \<and> \<not> presence s1 then (0xffffffff, s1)
         else read_loop 0 msk packet s1)"

text \<open>The two calibration loops of \<open>begin\<close>, each with its \<open>uint8_t\<close> counter.\<close>

function switch_loop :: "u8 \<Rightarrow> state \<Rightarrow> state" where
  "switch_loop i s =
     (if i < 64 then switch_loop (i + 1) (SET_TO_INPUT (SET_TO_OUTPUT s)) else s)"
  by pat_completeness auto
termination
proof (relation "measure (\<lambda>(i, s). 64 - unat i)")
  fix i :: u8 and s :: state
  assume below: "i < 64"
  have "unat (i + 1) = Suc (unat i)"
    using below by (rule u8_succ)
  moreover have "unat i < 64"
    using below by (simp add: word_less_nat_alt)
  ultimately show "((i + 1, SET_TO_INPUT (SET_TO_OUTPUT s)), (i, s)) \<in> measure (\<lambda>(i, s). 64 - unat i)"
    by simp
qed simp

function drive_loop :: "u8 \<Rightarrow> state \<Rightarrow> state" where
  "drive_loop i s =
     (if i < 128 then drive_loop (i + 1) (digitalWrite LOW (digitalWrite HIGH s)) else s)"
  by pat_completeness auto
termination
proof (relation "measure (\<lambda>(i, s). 128 - unat i)")
  fix i :: u8 and s :: state
  assume below: "i < 128"
  have "unat (i + 1) = Suc (unat i)"
    using below by (rule u8_succ)
  moreover have "unat i < 128"
    using below by (simp add: word_less_nat_alt)
  ultimately show "((i + 1, digitalWrite LOW (digitalWrite HIGH s)), (i, s)) \<in> measure (\<lambda>(i, s). 128 - unat i)"
    by simp
qed simp

definition begin' :: "state \<Rightarrow> state" where
  "begin' s =
     (let (start, s1) = micros s;
          s2 = switch_loop 0 s1;
          (now, s3) = micros s2;
          s4 = s3\<lparr>switchTime := ucast (drop_bit 7 (now - start))\<rparr>;
          s5 = SET_TO_OUTPUT s4;
          (start', s6) = micros s5;
          s7 = drive_loop 0 s6;
          (now', s8) = micros s7;
          s9 = s8\<lparr>writeTime := ucast (drop_bit 8 (now' - start'))\<rparr>
      in digitalWrite HIGH s9)"

section \<open>Slots: reading a trace of calls as the protocol's signals\<close>

text \<open>
  The code has no notion of a slot; the protocol has four (Reset/Presence, Write 0,
  Write 1, Read). A slot is recognised in the trace by the calls that make it up, as
  the protocol pages of \<open>MD_OnePin.cpp\<close> and \<open>MD_OnePin_Protocol.h\<close> describe them.
  The delays are the nominal times less the calibrated correction, in the 16-bit
  arithmetic of the delay's argument.
\<close>

definition pull :: "u16 \<Rightarrow> u16 \<Rightarrow> u16 \<Rightarrow> event list" where
  "pull wt active pause =
     [DigitalWrite LOW, DelayMicroseconds (active - wt), DigitalWrite HIGH] @
     (if pause \<noteq> 0 then [DelayMicroseconds (pause - wt)] else [])"

definition write_slot_events :: "u16 \<Rightarrow> bool \<Rightarrow> event list" where
  "write_slot_events wt b =
     (if b then pull wt OPT_WR1_SIGNAL OPT_WR1_PAUSE else pull wt OPT_WR0_SIGNAL OPT_WR0_PAUSE)"

definition read_slot_events :: "u16 \<Rightarrow> u16 \<Rightarrow> level \<Rightarrow> event list" where
  "read_slot_events wt st v =
     pull wt OPT_RD_INIT 0 @
     [PinMode INPUT_PULLUP, DelayMicroseconds (OPT_RD_SAMPLE - st), DigitalRead v,
      PinMode OUTPUT, DelayMicroseconds (OPT_RD_PAUSE - st)]"

definition reset_slot_events :: "u16 \<Rightarrow> u16 \<Rightarrow> level \<Rightarrow> event list" where
  "reset_slot_events wt st v =
     PinMode OUTPUT # pull wt OPT_RST_SIGNAL 0 @
     [PinMode INPUT_PULLUP, DelayMicroseconds (OPT_RST_PRS_SAMPLE - st), DigitalRead v,
      PinMode OUTPUT, DelayMicroseconds (OPT_RST_END - st)]"

text \<open>
  \<open>ResetPresence p\<close>: a Reset/Presence slot whose sample was LOW iff \<open>p\<close>;
  \<open>WriteBit b\<close>: a Write 1 slot if \<open>b\<close>, a Write 0 slot otherwise;
  \<open>ReadBit b\<close>: a Read slot whose sample was HIGH iff \<open>b\<close>.
\<close>

datatype slot = ResetPresence bool | WriteBit bool | ReadBit bool

fun is_reset :: "slot \<Rightarrow> bool" where
  "is_reset (ResetPresence p) = True"
| "is_reset (WriteBit b) = False"
| "is_reset (ReadBit b) = False"

text \<open>
  \<open>slots_of wt st es\<close> splits a trace into slots, left to right, for an object whose
  corrections are \<open>wt\<close> and \<open>st\<close>; \<open>None\<close> when the trace is not a sequence of slots.
\<close>

function slots_of :: "u16 \<Rightarrow> u16 \<Rightarrow> event list \<Rightarrow> slot list option" where
  "slots_of wt st es =
     (if es = [] then Some []
      else if take 4 es = write_slot_events wt True
        then map_option ((#) (WriteBit True)) (slots_of wt st (drop 4 es))
      else if take 4 es = write_slot_events wt False
        then map_option ((#) (WriteBit False)) (slots_of wt st (drop 4 es))
      else if take 8 es = read_slot_events wt st HIGH
        then map_option ((#) (ReadBit True)) (slots_of wt st (drop 8 es))
      else if take 8 es = read_slot_events wt st LOW
        then map_option ((#) (ReadBit False)) (slots_of wt st (drop 8 es))
      else if take 9 es = reset_slot_events wt st LOW
        then map_option ((#) (ResetPresence True)) (slots_of wt st (drop 9 es))
      else if take 9 es = reset_slot_events wt st HIGH
        then map_option ((#) (ResetPresence False)) (slots_of wt st (drop 9 es))
      else None)"
  by pat_completeness auto
termination
  by (relation "measure (\<lambda>(wt, st, es). length es)") auto

text \<open>The calls an operation made: what it appended to the trace.\<close>

definition emitted :: "state \<Rightarrow> state \<Rightarrow> event list" where
  "emitted s s' = drop (length (trace s)) (trace s')"

text \<open>
  The value a sequence of Write slots stands for at the receiving end: the first slot
  is bit 0.
\<close>

fun decode :: "slot list \<Rightarrow> u32" where
  "decode [] = 0"
| "decode (x # xs) = (if x = WriteBit True then 1 else 0) + 2 * decode xs"

text \<open>The pin is idle: a driven output at HIGH.\<close>

definition idle :: "state \<Rightarrow> bool" where
  "idle s \<longleftrightarrow> mode s = OUTPUT \<and> latch s = HIGH"

text \<open>
  The life of an object: constructed, then \<open>begin\<close>, then any number of operations
  (\<open>begin\<close> again among them). \<open>reachable s\<close>: \<open>s\<close> is a state after \<open>begin\<close> and
  zero or more further operations, for any data, flags, wire and clock.
\<close>

inductive reachable :: "state \<Rightarrow> bool" where
  first_begin: "reachable (begin' (MD_OnePin p bpp_pri bpp_sec s))"
| begin_again: "reachable s \<Longrightarrow> reachable (begin' s)"
| after_write: "reachable s \<Longrightarrow> reachable (snd (write' d noReset s))"
| after_read: "reachable s \<Longrightarrow> reachable (snd (read noReset s))"
| after_reset: "reachable s \<Longrightarrow> reachable (snd (resetComm s))"

section \<open>Delays\<close>

text \<open>The arguments of the \<open>delayMicroseconds\<close> calls of a trace, in order.\<close>

fun delay_arg :: "event \<Rightarrow> u16 list" where
  "delay_arg (DelayMicroseconds us) = [us]"
| "delay_arg (PinMode m) = []"
| "delay_arg (DigitalWrite v) = []"
| "delay_arg (DigitalRead v) = []"
| "delay_arg (Micros t) = []"

definition delay_args :: "event list \<Rightarrow> u16 list" where
  "delay_args es = concat (map delay_arg es)"

text \<open>
  The argument the specification asks for: the nominal time less the correction, and
  zero when the correction exceeds the nominal time.
\<close>

definition clamped_delay :: "u16 \<Rightarrow> u16 \<Rightarrow> u16" where
  "clamped_delay nominal correction =
     (if nominal < correction then 0 else nominal - correction)"

section \<open>Boards and wires to run the operations on\<close>

text \<open>
  A board after power-up, with nothing constructed on it yet: the pin is an input, the
  oracles are given. \<open>line_released\<close> is the wire with no SEC on it (the pull-up keeps it
  HIGH), \<open>line_held_low\<close> a wire held LOW at every sample, \<open>clock_stopped\<close> a clock
  that does not advance.
\<close>

definition power_on :: "(nat \<Rightarrow> level) \<Rightarrow> (nat \<Rightarrow> u32) \<Rightarrow> state" where
  "power_on l c =
     \<lparr>pin = 0, presence = False, bppPri = 0, bppSec = 0, switchTime = 0, writeTime = 0,
      mode = INPUT, latch = LOW, line = l, reads = 0, clock = c, ticks = 0, trace = []\<rparr>"

definition line_released :: "nat \<Rightarrow> level" where
  "line_released n = HIGH"

definition line_held_low :: "nat \<Rightarrow> level" where
  "line_held_low n = LOW"

definition clock_stopped :: "nat \<Rightarrow> u32" where
  "clock_stopped n = 0"

text \<open>
  A SEC that answers the reset and then sends \<open>0xB4\<close>, bit 0 first: the first sample
  (presence) is LOW, and of the eight that follow those of bits 2, 4, 5 and 7 are HIGH.
\<close>

definition line_0xB4 :: "nat \<Rightarrow> level" where
  "line_0xB4 n = (if n = 3 \<or> n = 5 \<or> n = 6 \<or> n = 8 then HIGH else LOW)"

text \<open>
  Three clocks: one on which every calibration loop of \<open>begin\<close> takes 10496 microseconds
  (a \<open>digitalWrite\<close> of 41 microseconds), one on which it takes 1536 (6 microseconds),
  and one that jumps by \<open>0x800000\<close> microseconds after its first reading and then stands.
\<close>

definition clock_slow :: "nat \<Rightarrow> u32" where
  "clock_slow n = 10496 * of_nat n"

definition clock_1536 :: "nat \<Rightarrow> u32" where
  "clock_1536 n = 1536 * of_nat n"

definition clock_jump :: "nat \<Rightarrow> u32" where
  "clock_jump n = (if n = 0 then 0 else 0x800000)"

text \<open>
  The loops are unfolded one pass at a time, where a proof asks for it.
\<close>

declare write_loop.simps [simp del]
declare read_loop.simps [simp del]
declare switch_loop.simps [simp del]
declare drive_loop.simps [simp del]
declare slots_of.simps [simp del]

section \<open>The operations in closed form\<close>

text \<open>
  Each operation leaves the state it was given with a few members changed and a run of
  calls appended to the trace. The loops are unrolled by computation induction.
\<close>

lemma OP_SIGNAL_eq:
  "OP_SIGNAL a p s = s\<lparr>latch := HIGH, trace := trace s @ pull (writeTime s) a p\<rparr>"
  by (simp add: OP_SIGNAL_def pull_def digitalWrite_def delayMicroseconds_def Let_def)

lemma resetComm_eq:
  "resetComm s =
     (line s (reads s) = LOW,
      s\<lparr>presence := (line s (reads s) = LOW), mode := OUTPUT, latch := HIGH,
        reads := Suc (reads s),
        trace := trace s @ reset_slot_events (writeTime s) (switchTime s) (line s (reads s))\<rparr>)"
  by (simp add: resetComm_def OP_SIGNAL_eq SET_TO_OUTPUT_def SET_TO_INPUT_def pinMode_def
        digitalRead_def delayMicroseconds_def reset_slot_events_def Let_def)

lemma read_slot_body_eq:
  "read_slot_body s =
     (line s (reads s),
      s\<lparr>mode := OUTPUT, latch := HIGH, reads := Suc (reads s),
        trace := trace s @ read_slot_events (writeTime s) (switchTime s) (line s (reads s))\<rparr>)"
  by (simp add: read_slot_body_def OP_SIGNAL_eq SET_TO_OUTPUT_def SET_TO_INPUT_def pinMode_def
        digitalRead_def delayMicroseconds_def read_slot_events_def Let_def)

lemma write_step_eq:
  "(if (d :: u32) AND 1 \<noteq> 0 then OP_SIGNAL OPT_WR1_SIGNAL OPT_WR1_PAUSE s
    else OP_SIGNAL OPT_WR0_SIGNAL OPT_WR0_PAUSE s) =
   s\<lparr>latch := HIGH, trace := trace s @ write_slot_events (writeTime s) (bit d 0)\<rparr>"
  by (simp add: OP_SIGNAL_eq write_slot_events_def bit_0 and_one_eq mod2_eq_if)

lemma map_upt_Suc_shift: "map f [0..<Suc m] = f 0 # map (\<lambda>k. f (Suc k)) [0..<m]"
  by (simp add: upt_conv_Cons map_Suc_upt [symmetric] del: upt_Suc)


lemma write_loop_eq:
  "write_loop i d s =
     s\<lparr>latch := (if i < bppPri s then HIGH else latch s),
       trace := trace s @
         concat (map (\<lambda>k. write_slot_events (writeTime s) (bit d k))
                   [0..<unat (bppPri s) - unat i])\<rparr>"
proof (induction i d s rule: write_loop.induct)
  case (1 i d s)
  show ?case
  proof (cases "i < bppPri s")
    case False
    then show ?thesis
      by (subst write_loop.simps) (simp add: word_less_nat_alt)
  next
    case True
    let ?s1 = "s\<lparr>latch := HIGH, trace := trace s @ write_slot_events (writeTime s) (bit d 0)\<rparr>"
    have n: "unat (bppPri s) - unat i = Suc (unat (bppPri s) - unat (i + 1))"
      using True by (simp add: u8_succ word_less_nat_alt Suc_diff_Suc)
    have "write_loop i d s = write_loop (i + 1) (drop_bit 1 d) ?s1"
      using True by (subst write_loop.simps) (simp add: write_step_eq)
    also have "\<dots> = ?s1\<lparr>latch := (if i + 1 < bppPri ?s1 then HIGH else latch ?s1),
       trace := trace ?s1 @
         concat (map (\<lambda>k. write_slot_events (writeTime ?s1) (bit (drop_bit 1 d) k))
                   [0..<unat (bppPri ?s1) - unat (i + 1)])\<rparr>"
      using 1 [OF True] unfolding write_step_eq .
    also have "\<dots> = s\<lparr>latch := (if i < bppPri s then HIGH else latch s),
       trace := trace s @
         concat (map (\<lambda>k. write_slot_events (writeTime s) (bit d k))
                   [0..<unat (bppPri s) - unat i])\<rparr>"
      using True by (simp add: n map_upt_Suc_shift bit_drop_bit_eq del: upt_Suc)
    finally show ?thesis .
  qed
qed


lemma read_loop_state:
  "snd (read_loop i m p s) =
     s\<lparr>mode := (if i < bppSec s then OUTPUT else mode s),
       latch := (if i < bppSec s then HIGH else latch s),
       reads := reads s + (unat (bppSec s) - unat i),
       trace := trace s @
         concat (map (\<lambda>k. read_slot_events (writeTime s) (switchTime s) (line s (reads s + k)))
                   [0..<unat (bppSec s) - unat i])\<rparr>"
proof (induction i m p s rule: read_loop.induct)
  case (1 i m p s)
  show ?case
  proof (cases "i < bppSec s")
    case False
    then show ?thesis
      by (subst read_loop.simps) (simp add: word_less_nat_alt)
  next
    case True
    let ?v = "line s (reads s)"
    let ?s1 = "s\<lparr>mode := OUTPUT, latch := HIGH, reads := Suc (reads s),
        trace := trace s @ read_slot_events (writeTime s) (switchTime s) ?v\<rparr>"
    let ?p1 = "if ?v = HIGH then p OR m else p"
    have n: "unat (bppSec s) - unat i = Suc (unat (bppSec s) - unat (i + 1))"
      using True by (simp add: u8_succ word_less_nat_alt Suc_diff_Suc)
    have "snd (read_loop i m p s) = snd (read_loop (i + 1) (push_bit 1 m) ?p1 ?s1)"
      using True by (subst read_loop.simps) (simp add: read_slot_body_eq)
    also have "\<dots> = ?s1\<lparr>mode := (if i + 1 < bppSec ?s1 then OUTPUT else mode ?s1),
       latch := (if i + 1 < bppSec ?s1 then HIGH else latch ?s1),
       reads := reads ?s1 + (unat (bppSec ?s1) - unat (i + 1)),
       trace := trace ?s1 @
         concat (map (\<lambda>k. read_slot_events (writeTime ?s1) (switchTime ?s1) (line ?s1 (reads ?s1 + k)))
                   [0..<unat (bppSec ?s1) - unat (i + 1)])\<rparr>"
      by (rule 1 [OF True]) (simp_all add: read_slot_body_eq)
    also have "\<dots> = s\<lparr>mode := (if i < bppSec s then OUTPUT else mode s),
       latch := (if i < bppSec s then HIGH else latch s),
       reads := reads s + (unat (bppSec s) - unat i),
       trace := trace s @
         concat (map (\<lambda>k. read_slot_events (writeTime s) (switchTime s) (line s (reads s + k)))
                   [0..<unat (bppSec s) - unat i])\<rparr>"
      using True by (simp add: n map_upt_Suc_shift del: upt_Suc)
    finally show ?thesis .
  qed
qed

lemma read_loop_bits:
  "bit (fst (read_loop i m p s)) j \<longleftrightarrow>
     bit p j \<or> (\<exists>k < unat (bppSec s) - unat i. line s (reads s + k) = HIGH \<and> bit (push_bit k m) j)"
proof (induction i m p s rule: read_loop.induct)
  case (1 i m p s)
  show ?case
  proof (cases "i < bppSec s")
    case False
    then show ?thesis
      by (subst read_loop.simps) (simp add: word_less_nat_alt)
  next
    case True
    let ?v = "line s (reads s)"
    let ?s1 = "s\<lparr>mode := OUTPUT, latch := HIGH, reads := Suc (reads s),
        trace := trace s @ read_slot_events (writeTime s) (switchTime s) ?v\<rparr>"
    let ?p1 = "if ?v = HIGH then p OR m else p"
    let ?n = "unat (bppSec s) - unat (i + 1)"
    have n: "unat (bppSec s) - unat i = Suc ?n"
      using True by (simp add: u8_succ word_less_nat_alt Suc_diff_Suc)
    have "fst (read_loop i m p s) = fst (read_loop (i + 1) (push_bit 1 m) ?p1 ?s1)"
      using True by (subst read_loop.simps) (simp add: read_slot_body_eq)
    moreover have "bit (fst (read_loop (i + 1) (push_bit 1 m) ?p1 ?s1)) j \<longleftrightarrow>
       bit ?p1 j \<or> (\<exists>k < unat (bppSec ?s1) - unat (i + 1).
          line ?s1 (reads ?s1 + k) = HIGH \<and> bit (push_bit k (push_bit 1 m)) j)"
      by (rule 1 [OF True]) (simp_all add: read_slot_body_eq)
    ultimately show ?thesis
      by (simp add: n Ex_less_Suc2 bit_or_iff push_bit_push_bit)
  qed
qed


lemma slots_of_Nil: "slots_of wt st [] = Some []"
  by (subst slots_of.simps) simp

lemma slots_of_write:
  "slots_of wt st (write_slot_events wt b @ es) = map_option ((#) (WriteBit b)) (slots_of wt st es)"
  by (subst slots_of.simps)
     (simp add: write_slot_events_def pull_def OPT_WR1_SIGNAL_def OPT_WR1_PAUSE_def
        OPT_WR0_SIGNAL_def OPT_WR0_PAUSE_def OPT_def)

lemma slots_of_read:
  "slots_of wt st (read_slot_events wt st v @ es) =
     map_option ((#) (ReadBit (v = HIGH))) (slots_of wt st es)"
  by (subst slots_of.simps, cases v)
     (simp_all add: read_slot_events_def write_slot_events_def pull_def OPT_WR1_SIGNAL_def
        OPT_WR1_PAUSE_def OPT_WR0_SIGNAL_def OPT_WR0_PAUSE_def OPT_RD_INIT_def OPT_def)

lemma slots_of_reset:
  "slots_of wt st (reset_slot_events wt st v @ es) =
     map_option ((#) (ResetPresence (v = LOW))) (slots_of wt st es)"
  by (subst slots_of.simps, cases v)
     (simp_all add: reset_slot_events_def read_slot_events_def write_slot_events_def pull_def
        OPT_WR1_SIGNAL_def OPT_WR1_PAUSE_def OPT_WR0_SIGNAL_def OPT_WR0_PAUSE_def OPT_def)

lemma slots_of_write_run:
  "slots_of wt st (concat (map (\<lambda>k. write_slot_events wt (f k)) ks)) =
     Some (map (\<lambda>k. WriteBit (f k)) ks)"
  by (induction ks) (simp_all add: slots_of_Nil slots_of_write)

lemma slots_of_read_run:
  "slots_of wt st (concat (map (\<lambda>k. read_slot_events wt st (f k)) ks)) =
     Some (map (\<lambda>k. ReadBit (f k = HIGH)) ks)"
  by (induction ks) (simp_all add: slots_of_Nil slots_of_read)

lemma slots_of_reset_only:
  "slots_of wt st (reset_slot_events wt st v) = Some [ResetPresence (v = LOW)]"
  using slots_of_reset [of wt st v "[]"] by (simp add: slots_of_Nil)

lemma write'_noReset_eq: "write' d True s = (presence s, write_loop 0 d s)"
  by (simp add: write'_def write_loop_eq)

lemma write'_reset_eq:
  "write' d False s =
     (line s (reads s) = LOW,
      if line s (reads s) = LOW then write_loop 0 d (snd (resetComm s)) else snd (resetComm s))"
  by (simp add: write'_def resetComm_eq write_loop_eq Let_def)

lemma read_noReset_eq: "read True s = read_loop 0 1 0 s"
  by (simp add: read_def)

lemma read_reset_eq:
  "read False s =
     (if line s (reads s) = LOW then read_loop 0 1 0 (snd (resetComm s))
      else (0xffffffff, snd (resetComm s)))"
  by (simp add: read_def resetComm_eq Let_def)

lemma emitted_write':
  "emitted s (snd (write' d nr s)) =
     (if nr then [] else reset_slot_events (writeTime s) (switchTime s) (line s (reads s))) @
     (if nr \<or> line s (reads s) = LOW
      then concat (map (\<lambda>k. write_slot_events (writeTime s) (bit d k)) [0..<unat (bppPri s)])
      else [])"
  by (cases nr)
     (simp_all add: write'_noReset_eq write'_reset_eq resetComm_eq write_loop_eq emitted_def
)

lemma emitted_read:
  "emitted s (snd (read nr s)) =
     (if nr then [] else reset_slot_events (writeTime s) (switchTime s) (line s (reads s))) @
     (if nr \<or> line s (reads s) = LOW
      then concat (map (\<lambda>k. read_slot_events (writeTime s) (switchTime s)
                            (line s (reads s + (if nr then 0 else 1) + k)))
                     [0..<unat (bppSec s)])
      else [])"
  by (cases nr)
     (simp_all add: read_noReset_eq read_reset_eq resetComm_eq read_loop_state emitted_def
)

lemma emitted_append: "trace s' = trace s @ es \<Longrightarrow> emitted s s' = es"
  by (simp add: emitted_def)

lemma switch_loop_eq:
  "i \<le> 64 \<Longrightarrow> switch_loop i s =
     s\<lparr>mode := (if i < 64 then INPUT_PULLUP else mode s),
       latch := (if i < 64 then HIGH else latch s),
       trace := trace s @ concat (replicate (64 - unat i) [PinMode OUTPUT, PinMode INPUT_PULLUP])\<rparr>"
proof (induction i s rule: switch_loop.induct)
  case (1 i s)
  show ?case
  proof (cases "i < 64")
    case False
    with 1(2) have "i = 64" by simp
    then show ?thesis
      by (subst switch_loop.simps) simp
  next
    case True
    let ?s1 = "SET_TO_INPUT (SET_TO_OUTPUT s)"
    have s1: "?s1 = s\<lparr>mode := INPUT_PULLUP, latch := HIGH,
        trace := trace s @ [PinMode OUTPUT, PinMode INPUT_PULLUP]\<rparr>"
      by (simp add: SET_TO_INPUT_def SET_TO_OUTPUT_def pinMode_def)
    have u: "unat (i + 1) = Suc (unat i)" using True by (rule u8_succ)
    have lt: "unat i < 64" using True by (simp add: word_less_nat_alt)
    have le: "i + 1 \<le> 64" using True by (rule inc_le)
    have n: "64 - unat i = Suc (64 - unat (i + 1))" using u lt by simp
    have "switch_loop i s = switch_loop (i + 1) ?s1"
      using True by (subst switch_loop.simps) simp
    also have "\<dots> = ?s1\<lparr>mode := (if i + 1 < 64 then INPUT_PULLUP else mode ?s1),
       latch := (if i + 1 < 64 then HIGH else latch ?s1),
       trace := trace ?s1 @ concat (replicate (64 - unat (i + 1)) [PinMode OUTPUT, PinMode INPUT_PULLUP])\<rparr>"
      by (rule 1(1) [OF True le])
    also have "\<dots> = s\<lparr>mode := (if i < 64 then INPUT_PULLUP else mode s),
       latch := (if i < 64 then HIGH else latch s),
       trace := trace s @ concat (replicate (64 - unat i) [PinMode OUTPUT, PinMode INPUT_PULLUP])\<rparr>"
      using True unfolding s1 n by simp
    finally show ?thesis .
  qed
qed

lemma drive_loop_eq:
  "i \<le> 128 \<Longrightarrow> drive_loop i s =
     s\<lparr>latch := (if i < 128 then LOW else latch s),
       trace := trace s @ concat (replicate (128 - unat i) [DigitalWrite HIGH, DigitalWrite LOW])\<rparr>"
proof (induction i s rule: drive_loop.induct)
  case (1 i s)
  show ?case
  proof (cases "i < 128")
    case False
    with 1(2) have "i = 128" by simp
    then show ?thesis
      by (subst drive_loop.simps) simp
  next
    case True
    let ?s1 = "digitalWrite LOW (digitalWrite HIGH s)"
    have s1: "?s1 = s\<lparr>latch := LOW,
        trace := trace s @ [DigitalWrite HIGH, DigitalWrite LOW]\<rparr>"
      by (simp add: digitalWrite_def)
    have u: "unat (i + 1) = Suc (unat i)" using True by (rule u8_succ)
    have lt: "unat i < 128" using True by (simp add: word_less_nat_alt)
    have le: "i + 1 \<le> 128" using True by (rule inc_le)
    have n: "128 - unat i = Suc (128 - unat (i + 1))" using u lt by simp
    have "drive_loop i s = drive_loop (i + 1) ?s1"
      using True by (subst drive_loop.simps) simp
    also have "\<dots> = ?s1\<lparr>latch := (if i + 1 < 128 then LOW else latch ?s1),
       trace := trace ?s1 @ concat (replicate (128 - unat (i + 1)) [DigitalWrite HIGH, DigitalWrite LOW])\<rparr>"
      by (rule 1(1) [OF True le])
    also have "\<dots> = s\<lparr>latch := (if i < 128 then LOW else latch s),
       trace := trace s @ concat (replicate (128 - unat i) [DigitalWrite HIGH, DigitalWrite LOW])\<rparr>"
      using True unfolding s1 n by simp
    finally show ?thesis .
  qed
qed

lemma begin'_eq:
  "begin' s =
     s\<lparr>switchTime := ucast (drop_bit 7 (clock s (Suc (ticks s)) - clock s (ticks s))),
       writeTime := ucast (drop_bit 8 (clock s (ticks s + 3) - clock s (ticks s + 2))),
       mode := OUTPUT, latch := HIGH, ticks := ticks s + 4,
       trace := trace s @
         Micros (clock s (ticks s)) #
         concat (replicate 64 [PinMode OUTPUT, PinMode INPUT_PULLUP]) @
         [Micros (clock s (Suc (ticks s))), PinMode OUTPUT, Micros (clock s (ticks s + 2))] @
         concat (replicate 128 [DigitalWrite HIGH, DigitalWrite LOW]) @
         [Micros (clock s (ticks s + 3)), DigitalWrite HIGH]\<rparr>"
  by (simp add: begin'_def micros_def switch_loop_eq drive_loop_eq SET_TO_OUTPUT_def pinMode_def
        digitalWrite_def Let_def numeral_eq_Suc del: replicate.simps)

lemma bit_exp_u32: "bit ((2 :: u32) ^ k) j \<longleftrightarrow> j = k \<and> j < 32"
  by (auto simp: bit_exp_iff possible_bit_word)

lemma read_loop_packet:
  "bit (fst (read_loop 0 1 0 s)) j \<longleftrightarrow>
     j < 32 \<and> j < unat (bppSec s) \<and> line s (reads s + j) = HIGH"
  by (auto simp: read_loop_bits bit_exp_u32)

lemma read_loop_presence: "presence (snd (read_loop i m p s)) = presence s"
  by (simp add: read_loop_state)

lemma decode_writes:
  "decode (map (\<lambda>i. WriteBit (bit v i)) [0..<n]) = take_bit n v"
proof (induction n arbitrary: v)
  case 0
  show ?case by simp
next
  case (Suc n)
  have "decode (map (\<lambda>i. WriteBit (bit v i)) [0..<Suc n]) =
      (if bit v 0 then 1 else 0) + 2 * decode (map (\<lambda>i. WriteBit (bit (v div 2) i)) [0..<n])"
    by (simp add: map_upt_Suc_shift bit_Suc del: upt_Suc)
  also have "\<dots> = (if bit v 0 then 1 else 0) + 2 * take_bit n (v div 2)"
    by (simp only: Suc.IH)
  also have "\<dots> = take_bit (Suc n) v"
    by (simp add: take_bit_Suc bit_0 mod2_eq_if)
  finally show ?case .
qed

lemma idle_begin': "idle (begin' s)"
  by (simp add: idle_def begin'_eq)

lemma idle_resetComm: "idle (snd (resetComm s))"
  by (simp add: idle_def resetComm_eq)

lemma idle_write_loop: "idle s \<Longrightarrow> idle (write_loop i d s)"
  by (simp add: idle_def write_loop_eq)

lemma idle_read_loop: "idle s \<Longrightarrow> idle (snd (read_loop i m p s))"
  by (simp add: idle_def read_loop_state)

lemma idle_write': "noReset \<longrightarrow> idle s \<Longrightarrow> idle (snd (write' d noReset s))"
  by (cases noReset)
     (simp_all add: write'_noReset_eq write'_reset_eq idle_write_loop idle_resetComm)

lemma idle_read: "noReset \<longrightarrow> idle s \<Longrightarrow> idle (snd (read noReset s))"
  by (cases noReset)
     (simp_all add: read_noReset_eq read_reset_eq idle_read_loop idle_resetComm)

lemma no_reset_among_writes: "filter is_reset (map (\<lambda>k. WriteBit (f k)) ks) = []"
  by (induction ks) simp_all

lemma no_reset_among_reads: "filter is_reset (map (\<lambda>k. ReadBit (f k)) ks) = []"
  by (induction ks) simp_all

lemma calibrate_slow:
  "writeTime (begin' (MD_OnePin 2 1 8 (power_on l clock_slow))) = 41"
  "switchTime (begin' (MD_OnePin 2 1 8 (power_on l clock_slow))) = 82"
  "bppPri (begin' (MD_OnePin 2 1 8 (power_on l clock_slow))) = 1"
  by (simp_all add: begin'_eq MD_OnePin_def power_on_def clock_slow_def drop_bit_eq_div)

lemma u16_of_u32_shifted:
  "unat (ucast (drop_bit 7 (w :: u32)) :: u16) = (unat w div 128) mod 65536"
  "unat (ucast (drop_bit 8 (w :: u32)) :: u16) = (unat w div 256) mod 65536"
  by (simp_all add: unsigned_ucast_eq take_bit_eq_mod drop_bit_eq_div unat_div)

lemma delay_args_append: "delay_args (xs @ ys) = delay_args xs @ delay_args ys"
  by (simp add: delay_args_def)

lemma delay_args_reset:
  "delay_args (reset_slot_events wt st v) =
     [OPT_RST_SIGNAL - wt, OPT_RST_PRS_SAMPLE - st, OPT_RST_END - st]"
  by (simp add: delay_args_def reset_slot_events_def pull_def)

lemma delay_args_write:
  "delay_args (write_slot_events wt b) =
     (if b then [OPT_WR1_SIGNAL - wt, OPT_WR1_PAUSE - wt]
      else [OPT_WR0_SIGNAL - wt, OPT_WR0_PAUSE - wt])"
  by (simp add: delay_args_def write_slot_events_def pull_def OPT_WR1_PAUSE_def
        OPT_WR1_SIGNAL_def OPT_WR0_PAUSE_def OPT_WR0_SIGNAL_def OPT_def)

lemma delay_args_read:
  "delay_args (read_slot_events wt st v) =
     [OPT_RD_INIT - wt, OPT_RD_SAMPLE - st, OPT_RD_PAUSE - st]"
  by (simp add: delay_args_def read_slot_events_def pull_def)

lemma delay_args_Nil: "delay_args [] = []"
  by (simp add: delay_args_def)

lemma u16_sub_wraps:
  "unat ((n :: u16) - c) =
     (if c \<le> n then unat n - unat c else 65536 - (unat c - unat n))"
proof -
  have "unat c < 65536" and "unat n < 65536"
    using unsigned_less [of c, where ?'a = nat] unsigned_less [of n, where ?'a = nat]
    by simp_all
  then show ?thesis
    by (auto simp add: unat_sub_if_size word_le_nat_alt word_size)
qed

lemma write_loop_presence: "presence (write_loop i d s) = presence s"
  by (simp add: write_loop_eq)

lemma emitted_begin':
  "emitted s (begin' s) =
     Micros (clock s (ticks s)) #
     concat (replicate 64 [PinMode OUTPUT, PinMode INPUT_PULLUP]) @
     [Micros (clock s (Suc (ticks s))), PinMode OUTPUT, Micros (clock s (ticks s + 2))] @
     concat (replicate 128 [DigitalWrite HIGH, DigitalWrite LOW]) @
     [Micros (clock s (ticks s + 3)), DigitalWrite HIGH]"
  by (rule emitted_append) (simp add: begin'_eq)

lemma delay_args_concat_map:
  "delay_args (concat (map f ks)) = concat (map (\<lambda>k. delay_args (f k)) ks)"
  by (induction ks) (simp_all add: delay_args_append delay_args_Nil)

lemma delay_args_replicate:
  "delay_args (concat (replicate n es)) = concat (replicate n (delay_args es))"
  by (induction n) (simp_all add: delay_args_append delay_args_Nil)

lemma delay_args_begin': "delay_args (emitted s (begin' s)) = []"
proof -
  have "delay_args (emitted s (begin' s)) =
      delay_args [Micros (clock s (ticks s))] @
      delay_args (concat (replicate 64 [PinMode OUTPUT, PinMode INPUT_PULLUP])) @
      delay_args [Micros (clock s (Suc (ticks s))), PinMode OUTPUT, Micros (clock s (ticks s + 2))] @
      delay_args (concat (replicate 128 [DigitalWrite HIGH, DigitalWrite LOW])) @
      delay_args [Micros (clock s (ticks s + 3)), DigitalWrite HIGH]"
    by (simp only: emitted_begin' delay_args_append [symmetric] append_Cons append_Nil)
  also have "\<dots> = []"
    by (simp only: delay_args_replicate) (simp add: delay_args_def)
  finally show ?thesis .
qed

lemma clamped_delay_differs:
  "(nominal - correction = clamped_delay nominal correction) \<longleftrightarrow> correction \<le> nominal"
  by (auto simp: clamped_delay_def not_less)

section \<open>The claims\<close>

text \<open>
  C1. Absence short-circuit. When the Reset/Presence slot of a call with \<open>noReset = false\<close>
  records \<open>presence = false\<close>, \<open>write\<close> returns false and \<open>read\<close> returns
  \<open>0xFFFFFFFF\<close>, and what either call put on the wire is that one Reset/Presence slot
  and nothing else: no Write 0, Write 1 or Read slot.
\<close>

theorem absence_short_circuit:
  assumes "\<not> presence (snd (resetComm s))"
  shows "fst (write' d False s) = False \<and>
     slots_of (writeTime s) (switchTime s) (emitted s (snd (write' d False s))) =
       Some [ResetPresence False] \<and>
     fst (read False s) = 0xffffffff \<and>
     slots_of (writeTime s) (switchTime s) (emitted s (snd (read False s))) =
       Some [ResetPresence False]"
proof -
  from assms have high: "line s (reads s) \<noteq> LOW"
    by (simp add: resetComm_eq)
  have "emitted s (snd (write' d False s)) =
      reset_slot_events (writeTime s) (switchTime s) (line s (reads s))"
    using high by (simp add: emitted_write')
  moreover have "emitted s (snd (read False s)) =
      reset_slot_events (writeTime s) (switchTime s) (line s (reads s))"
    using high by (simp add: emitted_read)
  ultimately show ?thesis
    using high by (simp add: slots_of_reset_only write'_reset_eq read_reset_eq)
qed

theorem absence_short_circuit_witness:
  "\<not> presence (snd (resetComm (MD_OnePin 2 8 8 (power_on line_released clock_stopped)))) \<and>
   fst (write' 0xAA False (MD_OnePin 2 8 8 (power_on line_released clock_stopped))) = False \<and>
   slots_of 0 0 (emitted (MD_OnePin 2 8 8 (power_on line_released clock_stopped))
      (snd (write' 0xAA False (MD_OnePin 2 8 8 (power_on line_released clock_stopped))))) =
     Some [ResetPresence False] \<and>
   fst (read False (MD_OnePin 2 8 8 (power_on line_released clock_stopped))) = 0xffffffff \<and>
   slots_of 0 0 (emitted (MD_OnePin 2 8 8 (power_on line_released clock_stopped))
      (snd (read False (MD_OnePin 2 8 8 (power_on line_released clock_stopped))))) =
     Some [ResetPresence False]"
proof -
  have absent:
    "\<not> presence (snd (resetComm (MD_OnePin 2 8 8 (power_on line_released clock_stopped))))"
    by (simp add: resetComm_eq MD_OnePin_def power_on_def line_released_def)
  show ?thesis
    using absent absence_short_circuit [OF absent, of "0xAA"]
    by (simp add: MD_OnePin_def power_on_def)
qed

text \<open>
  C2. LSB-first write round trip. When presence is established or \<open>noReset = true\<close>,
  \<open>write(v)\<close> emits, after the Reset/Presence slot if there is one, exactly \<open>bppPri\<close>
  data slots; slot \<open>i\<close> is a Write 1 slot if bit \<open>i\<close> of \<open>v\<close> is set and a Write 0 slot
  otherwise, and the slots decode to \<open>v & ((1 << bppPri) - 1)\<close>. This holds for every
  8-bit width, so for the widths 1 to 32 of the claim.
\<close>

theorem write_lsb_first_round_trip:
  assumes "noReset \<or> presence (snd (resetComm s))"
  shows "slots_of (writeTime s) (switchTime s) (emitted s (snd (write' v noReset s))) =
       Some ((if noReset then [] else [ResetPresence True]) @
             map (\<lambda>i. WriteBit (bit v i)) [0..<unat (bppPri s)]) \<and>
     length (map (\<lambda>i. WriteBit (bit v i)) [0..<unat (bppPri s)]) = unat (bppPri s) \<and>
     decode (map (\<lambda>i. WriteBit (bit v i)) [0..<unat (bppPri s)]) =
       v AND (push_bit (unat (bppPri s)) 1 - 1)"
proof -
  from assms have go: "noReset \<or> line s (reads s) = LOW"
    by (simp add: resetComm_eq)
  have "slots_of (writeTime s) (switchTime s) (emitted s (snd (write' v noReset s))) =
       Some ((if noReset then [] else [ResetPresence True]) @
             map (\<lambda>i. WriteBit (bit v i)) [0..<unat (bppPri s)])"
    using go by (auto simp: emitted_write' slots_of_write_run slots_of_reset)
  moreover have "decode (map (\<lambda>i. WriteBit (bit v i)) [0..<unat (bppPri s)]) =
       v AND (push_bit (unat (bppPri s)) 1 - 1)"
    by (simp add: decode_writes take_bit_eq_mask mask_eq_exp_minus_1 push_bit_eq_mult)
  ultimately show ?thesis by simp
qed


theorem write_lsb_first_round_trip_witness:
  "(False \<or> presence (snd (resetComm (MD_OnePin 2 8 8 (power_on line_held_low clock_stopped))))) \<and>
   slots_of 0 0 (emitted (MD_OnePin 2 8 8 (power_on line_held_low clock_stopped))
      (snd (write' 0xA5 False (MD_OnePin 2 8 8 (power_on line_held_low clock_stopped))))) =
     Some [ResetPresence True, WriteBit True, WriteBit False, WriteBit True, WriteBit False,
           WriteBit False, WriteBit True, WriteBit False, WriteBit True] \<and>
   decode [WriteBit True, WriteBit False, WriteBit True, WriteBit False,
           WriteBit False, WriteBit True, WriteBit False, WriteBit True] = 0xA5"
proof -
  have present:
    "False \<or> presence (snd (resetComm (MD_OnePin 2 8 8 (power_on line_held_low clock_stopped))))"
    by (simp add: resetComm_eq MD_OnePin_def power_on_def line_held_low_def)
  have bits: "map (\<lambda>i. WriteBit (bit (0xA5 :: u32) i)) [0..<8] =
      [WriteBit True, WriteBit False, WriteBit True, WriteBit False,
       WriteBit False, WriteBit True, WriteBit False, WriteBit True]"
    by (simp add: upt_rec bit_numeral_rec)
  show ?thesis
    using present write_lsb_first_round_trip [OF present, of "0xA5"] bits
    by (simp add: MD_OnePin_def power_on_def)
qed

text \<open>
  C3. Read bit placement and masking. A \<open>read\<close> that does not return \<open>0xFFFFFFFF\<close>
  has performed, after the Reset/Presence slot if there is one, exactly \<open>bppSec\<close> Read
  slots, and bit \<open>j\<close> of its result is set iff \<open>j < bppSec\<close> and the sample of slot \<open>j\<close>
  was HIGH (a 32-bit result has no bit \<open>j \<ge> 32\<close>): the bit of slot \<open>i\<close> sits at mask
  \<open>1 << i\<close>, and every bit at a position \<open>\<ge> bppSec\<close> is zero. The sample of slot \<open>i\<close> is
  the wire's level at the \<open>i\<close>-th \<open>digitalRead\<close> after the one of the reset.
\<close>

theorem read_bit_placement:
  assumes "fst (read noReset s) \<noteq> 0xffffffff"
  shows "slots_of (writeTime s) (switchTime s) (emitted s (snd (read noReset s))) =
       Some ((if noReset then [] else [ResetPresence True]) @
             map (\<lambda>i. ReadBit (line s (reads s + (if noReset then 0 else 1) + i) = HIGH))
               [0..<unat (bppSec s)]) \<and>
     (\<forall>j. bit (fst (read noReset s)) j \<longleftrightarrow>
        j < 32 \<and> j < unat (bppSec s) \<and>
        line s (reads s + (if noReset then 0 else 1) + j) = HIGH) \<and>
     (\<forall>j. unat (bppSec s) \<le> j \<longrightarrow> \<not> bit (fst (read noReset s)) j)"
proof -
  from assms have go: "noReset \<or> line s (reads s) = LOW"
    by (cases noReset) (auto simp: read_reset_eq split: if_splits)
  have slots: "slots_of (writeTime s) (switchTime s) (emitted s (snd (read noReset s))) =
       Some ((if noReset then [] else [ResetPresence True]) @
             map (\<lambda>i. ReadBit (line s (reads s + (if noReset then 0 else 1) + i) = HIGH))
               [0..<unat (bppSec s)])"
    using go by (auto simp: emitted_read slots_of_read_run slots_of_reset)
  have bits: "bit (fst (read noReset s)) j \<longleftrightarrow>
        j < 32 \<and> j < unat (bppSec s) \<and>
        line s (reads s + (if noReset then 0 else 1) + j) = HIGH" for j
    using go by (cases noReset)
      (simp_all add: read_noReset_eq read_reset_eq read_loop_packet resetComm_eq)
  from slots bits show ?thesis by simp
qed


theorem read_bit_placement_witness:
  "fst (read False (MD_OnePin 2 8 8 (power_on line_0xB4 clock_stopped))) \<noteq> 0xffffffff \<and>
   slots_of 0 0 (emitted (MD_OnePin 2 8 8 (power_on line_0xB4 clock_stopped))
      (snd (read False (MD_OnePin 2 8 8 (power_on line_0xB4 clock_stopped))))) =
     Some [ResetPresence True, ReadBit False, ReadBit False, ReadBit True, ReadBit False,
           ReadBit True, ReadBit True, ReadBit False, ReadBit True] \<and>
   fst (read False (MD_OnePin 2 8 8 (power_on line_0xB4 clock_stopped))) = 0xB4"
proof -
  have val: "fst (read False (MD_OnePin 2 8 8 (power_on line_0xB4 clock_stopped))) = 0xB4"
    by (simp add: read_reset_eq resetComm_eq read_loop.simps read_slot_body_eq MD_OnePin_def
          power_on_def line_0xB4_def)
  then have ok: "fst (read False (MD_OnePin 2 8 8 (power_on line_0xB4 clock_stopped))) \<noteq> 0xffffffff"
    by simp
  show ?thesis
    using val read_bit_placement [OF ok]
    by (simp add: MD_OnePin_def power_on_def line_0xB4_def upt_rec)
qed

text \<open>
  C4. Delay arguments. Every delay of every operation is called with its own nominal
  time less its own correction: \<open>writeTime\<close> for the low and pause delays of the signal
  primitive, \<open>switchTime\<close> for the delays after a change of direction. \<open>begin\<close> issues
  none; the Reset/Presence slot issues \<open>OPT_RST_SIGNAL - writeTime\<close>,
  \<open>OPT_RST_PRS_SAMPLE - switchTime\<close> and \<open>OPT_RST_END - switchTime\<close>; a Write slot its
  signal and pause times less \<open>writeTime\<close>; a Read slot \<open>OPT_RD_INIT - writeTime\<close>,
  \<open>OPT_RD_SAMPLE - switchTime\<close> and \<open>OPT_RD_PAUSE - switchTime\<close>; in this order, slot
  after slot. The difference is computed in the unsigned 16-bit arithmetic of the
  operands: it is the exact difference when the correction does not exceed the nominal
  time and \<open>65536\<close> less the shortfall when it does, and it is the clamped argument in
  the first case only. Nothing is clamped.
\<close>

theorem delay_arguments_wrap:
  "delay_args (emitted s (begin' s)) = [] \<and>
   delay_args (emitted s (snd (resetComm s))) =
     [OPT_RST_SIGNAL - writeTime s, OPT_RST_PRS_SAMPLE - switchTime s,
      OPT_RST_END - switchTime s] \<and>
   delay_args (emitted s (snd (write' d noReset s))) =
     (if noReset then []
      else [OPT_RST_SIGNAL - writeTime s, OPT_RST_PRS_SAMPLE - switchTime s,
            OPT_RST_END - switchTime s]) @
     (if noReset \<or> presence (snd (resetComm s))
      then concat (map (\<lambda>i. if bit d i
                              then [OPT_WR1_SIGNAL - writeTime s, OPT_WR1_PAUSE - writeTime s]
                              else [OPT_WR0_SIGNAL - writeTime s, OPT_WR0_PAUSE - writeTime s])
                     [0..<unat (bppPri s)])
      else []) \<and>
   delay_args (emitted s (snd (read noReset s))) =
     (if noReset then []
      else [OPT_RST_SIGNAL - writeTime s, OPT_RST_PRS_SAMPLE - switchTime s,
            OPT_RST_END - switchTime s]) @
     (if noReset \<or> presence (snd (resetComm s))
      then concat (replicate (unat (bppSec s))
             [OPT_RD_INIT - writeTime s, OPT_RD_SAMPLE - switchTime s,
              OPT_RD_PAUSE - switchTime s])
      else []) \<and>
   (\<forall>nominal correction :: u16.
      unat (nominal - correction) =
        (if correction \<le> nominal then unat nominal - unat correction
         else 65536 - (unat correction - unat nominal)) \<and>
      ((nominal - correction = clamped_delay nominal correction) \<longleftrightarrow> correction \<le> nominal))"
proof -
  have rst: "delay_args (emitted s (snd (resetComm s))) =
     [OPT_RST_SIGNAL - writeTime s, OPT_RST_PRS_SAMPLE - switchTime s,
      OPT_RST_END - switchTime s]"
    by (simp add: resetComm_eq emitted_def delay_args_reset)
  have wr: "delay_args (emitted s (snd (write' d noReset s))) =
     (if noReset then []
      else [OPT_RST_SIGNAL - writeTime s, OPT_RST_PRS_SAMPLE - switchTime s,
            OPT_RST_END - switchTime s]) @
     (if noReset \<or> presence (snd (resetComm s))
      then concat (map (\<lambda>i. if bit d i
                              then [OPT_WR1_SIGNAL - writeTime s, OPT_WR1_PAUSE - writeTime s]
                              else [OPT_WR0_SIGNAL - writeTime s, OPT_WR0_PAUSE - writeTime s])
                     [0..<unat (bppPri s)])
      else [])"
    by (simp add: emitted_write' delay_args_append delay_args_Nil delay_args_reset
          delay_args_concat_map delay_args_write resetComm_eq)
  have rd: "delay_args (emitted s (snd (read noReset s))) =
     (if noReset then []
      else [OPT_RST_SIGNAL - writeTime s, OPT_RST_PRS_SAMPLE - switchTime s,
            OPT_RST_END - switchTime s]) @
     (if noReset \<or> presence (snd (resetComm s))
      then concat (replicate (unat (bppSec s))
             [OPT_RD_INIT - writeTime s, OPT_RD_SAMPLE - switchTime s,
              OPT_RD_PAUSE - switchTime s])
      else [])"
    by (simp add: emitted_read delay_args_append delay_args_Nil delay_args_reset
          delay_args_concat_map delay_args_read resetComm_eq map_replicate_const)
  show ?thesis
    by (simp only: rst wr rd delay_args_begin' u16_sub_wraps clamped_delay_differs simp_thms)
qed

theorem delay_arguments_wrap_witness:
  "delay_args (emitted (begin' (MD_OnePin 2 2 2 (power_on line_held_low clock_1536)))
      (snd (resetComm (begin' (MD_OnePin 2 2 2 (power_on line_held_low clock_1536)))))) =
     [394, 68, 108] \<and>
   delay_args (emitted (begin' (MD_OnePin 2 2 2 (power_on line_held_low clock_1536)))
      (snd (write' 1 False (begin' (MD_OnePin 2 2 2 (power_on line_held_low clock_1536)))))) =
     [394, 68, 108, 34, 34, 114, 34] \<and>
   delay_args (emitted (begin' (MD_OnePin 2 2 2 (power_on line_held_low clock_1536)))
      (snd (read True (begin' (MD_OnePin 2 2 2 (power_on line_held_low clock_1536)))))) =
     [194, 28, 68, 194, 28, 68]"
proof -
  let ?s = "begin' (MD_OnePin 2 2 2 (power_on line_held_low clock_1536))"
  have cal: "writeTime ?s = 6" "switchTime ?s = 12" "bppPri ?s = 2" "bppSec ?s = 2"
    by (simp_all add: begin'_eq MD_OnePin_def power_on_def clock_1536_def drop_bit_eq_div)
  have present: "presence (snd (resetComm ?s))"
    by (simp add: resetComm_eq begin'_eq MD_OnePin_def power_on_def line_held_low_def)
  have bits: "map (\<lambda>i. if bit (1 :: u32) i then [a, b] else [c, e]) [0..<2] = [[a, b], [c, e]]"
    for a b c e :: u16
    by (simp add: upt_rec bit_1_iff)
  have twice: "concat (replicate 2 xs) = xs @ xs" for xs :: "u16 list"
    by (simp add: numeral_2_eq_2)
  have times: "OPT_RST_SIGNAL = 400" "OPT_RST_PRS_SAMPLE = 80" "OPT_RST_END = 120"
    "OPT_WR1_SIGNAL = 40" "OPT_WR1_PAUSE = 40" "OPT_WR0_SIGNAL = 120" "OPT_WR0_PAUSE = 40"
    "OPT_RD_INIT = 200" "OPT_RD_SAMPLE = 40" "OPT_RD_PAUSE = 80"
    by (simp_all add: OPT_RST_SIGNAL_def OPT_RST_PRS_SAMPLE_def
          OPT_RST_END_def OPT_WR1_SIGNAL_def OPT_WR1_PAUSE_def OPT_WR0_SIGNAL_def
          OPT_WR0_PAUSE_def OPT_RD_INIT_def OPT_RD0_SIGNAL_def OPT_RD_SAMPLE_def OPT_RD_PAUSE_def
          OPT_def)
  from delay_arguments_wrap [of ?s 1 False] delay_arguments_wrap [of ?s 1 True]
  show ?thesis
    unfolding cal times by (simp add: present bits twice)
qed

text \<open>
  Against C4 as stated (the argument is clamped to zero when the correction exceeds the
  nominal time): on a board whose \<open>digitalWrite\<close> calibrates to 41 microseconds, the
  Write 1 slot of \<open>write(1)\<close> calls both its delays with \<open>40 - 41 = 65535\<close>, where the
  clamped argument is 0.
\<close>

theorem delay_not_clamped_counterexample:
  "writeTime (begin' (MD_OnePin 2 1 8 (power_on line_released clock_slow))) = 41 \<and>
   emitted (begin' (MD_OnePin 2 1 8 (power_on line_released clock_slow)))
     (snd (write' 1 True (begin' (MD_OnePin 2 1 8 (power_on line_released clock_slow))))) =
     [DigitalWrite LOW, DelayMicroseconds 65535, DigitalWrite HIGH, DelayMicroseconds 65535] \<and>
   clamped_delay OPT_WR1_SIGNAL 41 = 0 \<and> clamped_delay OPT_WR1_PAUSE 41 = 0"
  by (simp add: emitted_write' calibrate_slow write_slot_events_def pull_def clamped_delay_def
        OPT_WR1_SIGNAL_def OPT_WR1_PAUSE_def OPT_def)

text \<open>
  C5. Construction. The constructor checks nothing and cannot fail: for every pair of
  widths, inside \<open>[1,32]\<close> or not, it yields an object that holds the pin and exactly the
  widths given, with \<open>presence = false\<close>; and the object works with those widths as they
  are, a \<open>write\<close> sending \<open>bppPri\<close> Write slots and a \<open>read\<close> taking \<open>bppSec\<close> Read slots.
\<close>

theorem construction_stores_any_width:
  "pin (MD_OnePin p a b s) = p \<and>
   presence (MD_OnePin p a b s) = False \<and>
   bppPri (MD_OnePin p a b s) = a \<and>
   bppSec (MD_OnePin p a b s) = b \<and>
   slots_of (writeTime s) (switchTime s)
      (emitted (MD_OnePin p a b s) (snd (write' d True (MD_OnePin p a b s)))) =
     Some (map (\<lambda>i. WriteBit (bit d i)) [0..<unat a]) \<and>
   slots_of (writeTime s) (switchTime s)
      (emitted (MD_OnePin p a b s) (snd (read True (MD_OnePin p a b s)))) =
     Some (map (\<lambda>i. ReadBit (line s (reads s + i) = HIGH)) [0..<unat b])"
proof -
  let ?s = "MD_OnePin p a b s"
  have same: "writeTime ?s = writeTime s" "switchTime ?s = switchTime s" "line ?s = line s"
    "reads ?s = reads s" "bppPri ?s = a" "bppSec ?s = b"
    by (simp_all add: MD_OnePin_def)
  have "slots_of (writeTime ?s) (switchTime ?s) (emitted ?s (snd (write' d True ?s))) =
     Some (map (\<lambda>i. WriteBit (bit d i)) [0..<unat (bppPri ?s)])"
    by (simp only: emitted_write' slots_of_write_run if_True append_Nil simp_thms)
  moreover have "slots_of (writeTime ?s) (switchTime ?s) (emitted ?s (snd (read True ?s))) =
     Some (map (\<lambda>i. ReadBit (line ?s (reads ?s + i) = HIGH)) [0..<unat (bppSec ?s)])"
    by (simp only: emitted_read slots_of_read_run if_True append_Nil simp_thms add_0_right)
  ultimately show ?thesis
    unfolding same by (simp add: MD_OnePin_def)
qed

text \<open>
  Against C5 as stated (a width outside \<open>[1,32]\<close> makes construction fail): constructed
  with \<open>bppPri = 0\<close> and \<open>bppSec = 33\<close>, the object holds these widths, and a \<open>read\<close> on it
  takes 33 Read slots.
\<close>

theorem invalid_width_accepted_counterexample:
  "bppPri (MD_OnePin 3 0 33 (power_on line_released clock_stopped)) = 0 \<and>
   bppSec (MD_OnePin 3 0 33 (power_on line_released clock_stopped)) = 33 \<and>
   slots_of 0 0 (emitted (MD_OnePin 3 0 33 (power_on line_released clock_stopped))
      (snd (read True (MD_OnePin 3 0 33 (power_on line_released clock_stopped))))) =
     Some (replicate 33 (ReadBit True))"
proof -
  let ?s = "MD_OnePin 3 0 33 (power_on line_released clock_stopped)"
  have "slots_of (writeTime ?s) (switchTime ?s) (emitted ?s (snd (read True ?s))) =
     Some (map (\<lambda>i. ReadBit (line ?s (reads ?s + i) = HIGH)) [0..<unat (bppSec ?s)])"
    by (simp only: emitted_read slots_of_read_run if_True append_Nil simp_thms add_0_right)
  then show ?thesis
    by (simp add: MD_OnePin_def power_on_def line_released_def map_replicate_const)
qed

text \<open>
  C6. Calibration. \<open>begin\<close> reads the clock, switches the pin to output and back to
  input with pull-up 64 times, reads the clock and sets \<open>switchTime\<close> to the elapsed
  microseconds (the difference of the two readings modulo \<open>2 ^ 32\<close>) divided by 128,
  reduced to the 16 bits of the member (modulo 65536); it switches the pin to output,
  reads the clock, drives the pin HIGH and LOW 128 times, reads the clock and sets
  \<open>writeTime\<close> to the elapsed microseconds divided by 256, modulo 65536; it drives the
  pin HIGH. On return the pin is a driven output at HIGH. \<open>begin\<close> does not assign
  \<open>presence\<close>: it is what it was, so false on an object just constructed.
\<close>

theorem begin_calibration:
  "emitted s (begin' s) =
     Micros (clock s (ticks s)) #
     concat (replicate 64 [PinMode OUTPUT, PinMode INPUT_PULLUP]) @
     [Micros (clock s (Suc (ticks s))), PinMode OUTPUT, Micros (clock s (ticks s + 2))] @
     concat (replicate 128 [DigitalWrite HIGH, DigitalWrite LOW]) @
     [Micros (clock s (ticks s + 3)), DigitalWrite HIGH] \<and>
   unat (switchTime (begin' s)) =
     (unat (clock s (Suc (ticks s)) - clock s (ticks s)) div 128) mod 65536 \<and>
   unat (writeTime (begin' s)) =
     (unat (clock s (ticks s + 3) - clock s (ticks s + 2)) div 256) mod 65536 \<and>
   idle (begin' s) \<and>
   presence (begin' s) = presence s \<and>
   presence (begin' (MD_OnePin p a b s)) = False"
proof -
  have "unat (switchTime (begin' s)) =
     (unat (clock s (Suc (ticks s)) - clock s (ticks s)) div 128) mod 65536"
    by (simp add: begin'_eq u16_of_u32_shifted)
  moreover have "unat (writeTime (begin' s)) =
     (unat (clock s (ticks s + 3) - clock s (ticks s + 2)) div 256) mod 65536"
    by (simp add: begin'_eq u16_of_u32_shifted)
  moreover have "presence (begin' s) = presence s"
    and "presence (begin' (MD_OnePin p a b s)) = False"
    by (simp_all add: begin'_eq MD_OnePin_def)
  ultimately show ?thesis
    by (simp only: emitted_begin' idle_begin' simp_thms)
qed

text \<open>
  Against C6 as stated: an object on which a \<open>write\<close> has found the SEC present, and a
  clock that advances by \<open>0x800000\<close> microseconds during the first loop of \<open>begin\<close>. On
  return from \<open>begin\<close> presence is still true, and \<open>switchTime\<close> is 0 where the elapsed
  time divided by 128 is 65536.
\<close>

theorem begin_postcondition_counterexample:
  "clock (snd (write' 0 False (MD_OnePin 2 8 8 (power_on line_held_low clock_jump))))
     (ticks (snd (write' 0 False (MD_OnePin 2 8 8 (power_on line_held_low clock_jump))))) = 0 \<and>
   clock (snd (write' 0 False (MD_OnePin 2 8 8 (power_on line_held_low clock_jump))))
     (Suc (ticks (snd (write' 0 False (MD_OnePin 2 8 8 (power_on line_held_low clock_jump)))))) =
     0x800000 \<and>
   unat (0x800000 - 0 :: u32) div 128 = 65536 \<and>
   unat (switchTime (begin' (snd (write' 0 False
     (MD_OnePin 2 8 8 (power_on line_held_low clock_jump)))))) = 0 \<and>
   presence (begin' (snd (write' 0 False
     (MD_OnePin 2 8 8 (power_on line_held_low clock_jump))))) = True"
  by (simp add: begin'_eq write'_reset_eq resetComm_eq write_loop_eq MD_OnePin_def power_on_def
        line_held_low_def clock_jump_def drop_bit_eq_div)

text \<open>
  C7. Idle invariant. \<open>begin\<close>, the Reset/Presence slot, and a \<open>write\<close> or \<open>read\<close> that
  starts with one (\<open>noReset = false\<close>) leave the pin a driven output at HIGH from any
  state at all; and from \<open>begin\<close> on the pin is a driven output at HIGH after every
  operation, whatever the data, the \<open>noReset\<close> flag and the levels sampled.
  \<open>reachable\<close> are the states an object is in after \<open>begin\<close> and any number of further
  operations.
\<close>

theorem idle_invariant:
  "idle (begin' s) \<and>
   idle (snd (resetComm s)) \<and>
   idle (snd (write' d False s)) \<and>
   idle (snd (read False s)) \<and>
   (reachable s \<longrightarrow> idle s \<and> idle (snd (write' d noReset s)) \<and> idle (snd (read noReset s)))"
proof -
  have inv: "idle t" if "reachable t" for t
    using that
    by (induction rule: reachable.induct)
       (simp_all add: idle_begin' idle_resetComm idle_write' idle_read)
  show ?thesis
    by (simp add: inv idle_begin' idle_resetComm idle_write' idle_read)
qed

theorem idle_invariant_witness:
  "reachable (snd (read True (begin' (MD_OnePin 2 8 8 (power_on line_released clock_stopped))))) \<and>
   idle (snd (read True (begin' (MD_OnePin 2 8 8 (power_on line_released clock_stopped))))) \<and>
   idle (snd (write' 0x01 True
     (snd (read True (begin' (MD_OnePin 2 8 8 (power_on line_released clock_stopped)))))))"
proof -
  have r: "reachable (snd (read True (begin' (MD_OnePin 2 8 8 (power_on line_released clock_stopped)))))"
    by (intro reachable.after_read reachable.first_begin)
  from r idle_invariant [of _ "0x01" True] show ?thesis by blast
qed

text \<open>
  C8. Reset ordering. What a \<open>write\<close> or a \<open>read\<close> with \<open>noReset = false\<close> puts on the wire
  is one Reset/Presence slot followed by slots none of which is a Reset/Presence slot; with
  \<open>noReset = true\<close> no slot of the call is a Reset/Presence slot.
\<close>

theorem reset_ordering:
  "(\<exists>data. slots_of (writeTime s) (switchTime s) (emitted s (snd (write' d noReset s))) =
        Some ((if noReset then [] else [ResetPresence (fst (resetComm s))]) @ data) \<and>
      filter is_reset data = []) \<and>
   (\<exists>data. slots_of (writeTime s) (switchTime s) (emitted s (snd (read noReset s))) =
        Some ((if noReset then [] else [ResetPresence (fst (resetComm s))]) @ data) \<and>
      filter is_reset data = [])"
proof
  let ?p = "line s (reads s) = LOW"
  let ?ws = "if noReset \<or> ?p then map (\<lambda>i. WriteBit (bit d i)) [0..<unat (bppPri s)] else []"
  have "slots_of (writeTime s) (switchTime s) (emitted s (snd (write' d noReset s))) =
        Some ((if noReset then [] else [ResetPresence (fst (resetComm s))]) @ ?ws)"
    by (simp add: emitted_write' slots_of_write_run slots_of_reset slots_of_reset_only
          slots_of_Nil resetComm_eq)
  moreover have "filter is_reset ?ws = []"
    by (simp add: no_reset_among_writes)
  ultimately show "\<exists>data. slots_of (writeTime s) (switchTime s) (emitted s (snd (write' d noReset s))) =
        Some ((if noReset then [] else [ResetPresence (fst (resetComm s))]) @ data) \<and>
      filter is_reset data = []"
    by blast
next
  let ?p = "line s (reads s) = LOW"
  let ?rs = "if noReset \<or> ?p
     then map (\<lambda>i. ReadBit (line s (reads s + (if noReset then 0 else 1) + i) = HIGH))
            [0..<unat (bppSec s)]
     else []"
  have "slots_of (writeTime s) (switchTime s) (emitted s (snd (read noReset s))) =
        Some ((if noReset then [] else [ResetPresence (fst (resetComm s))]) @ ?rs)"
    by (simp add: emitted_read slots_of_read_run slots_of_reset slots_of_reset_only
          slots_of_Nil resetComm_eq)
  moreover have "filter is_reset ?rs = []"
    by (simp add: no_reset_among_reads)
  ultimately show "\<exists>data. slots_of (writeTime s) (switchTime s) (emitted s (snd (read noReset s))) =
        Some ((if noReset then [] else [ResetPresence (fst (resetComm s))]) @ data) \<and>
      filter is_reset data = []"
    by blast
qed

text \<open>
  C9. A \<open>read\<close> with \<open>noReset = true\<close> performs exactly \<open>bppSec\<close> Read slots and returns
  the value accumulated from their samples, whatever the stored presence is: the stored
  presence has no part in the result (so \<open>0xFFFFFFFF\<close> comes back only as 32 samples that
  are all HIGH), and the call leaves it unchanged.
\<close>

theorem read_noReset_ignores_presence:
  "slots_of (writeTime s) (switchTime s) (emitted s (snd (read True s))) =
     Some (map (\<lambda>i. ReadBit (line s (reads s + i) = HIGH)) [0..<unat (bppSec s)]) \<and>
   (\<forall>j. bit (fst (read True s)) j \<longleftrightarrow>
      j < 32 \<and> j < unat (bppSec s) \<and> line s (reads s + j) = HIGH) \<and>
   fst (read True (s\<lparr>presence := p\<rparr>)) = fst (read True s) \<and>
   presence (snd (read True s)) = presence s"
proof -
  have "slots_of (writeTime s) (switchTime s) (emitted s (snd (read True s))) =
     Some (map (\<lambda>i. ReadBit (line s (reads s + i) = HIGH)) [0..<unat (bppSec s)])"
    by (simp add: emitted_read slots_of_read_run)
  moreover have "fst (read True (s\<lparr>presence := p\<rparr>)) = fst (read True s)"
    by (rule bit_eqI) (simp add: read_noReset_eq read_loop_packet)
  ultimately show ?thesis
    by (simp add: read_noReset_eq read_loop_packet read_loop_presence)
qed

text \<open>
  C10. A \<open>write\<close> with \<open>noReset = true\<close> transmits all \<open>bppPri\<close> data slots, slot \<open>i\<close>
  carrying bit \<open>i\<close> of the data, whatever the stored presence is; it returns the stored
  presence, which it does not change. So it returns false after transmitting the whole
  packet when the last Reset/Presence slot found nobody.
\<close>

theorem write_noReset_returns_stored_presence:
  "fst (write' d True s) = presence s \<and>
   presence (snd (write' d True s)) = presence s \<and>
   slots_of (writeTime s) (switchTime s) (emitted s (snd (write' d True s))) =
     Some (map (\<lambda>i. WriteBit (bit d i)) [0..<unat (bppPri s)])"
proof -
  have "slots_of (writeTime s) (switchTime s) (emitted s (snd (write' d True s))) =
     Some (map (\<lambda>i. WriteBit (bit d i)) [0..<unat (bppPri s)])"
    by (simp add: emitted_write' slots_of_write_run)
  then show ?thesis
    by (simp add: write'_noReset_eq write_loop_eq)
qed

end
